theory Spec2Isabelle
  imports Main "HOL-Library.Word"
begin

unbundle bit_operations_syntax

section \<open>Buffers\<close>

text \<open>
  A Node.js \<open>Buffer\<close> is a sequence of bytes. The operations below are the ones the two
  classes call. Every read in the sources sits behind a test of the buffer's length, and
  every write is at an offset inside a buffer allocated for it, so \<open>!\<close> and list update are
  only ever applied in range.

  The sources pass \<open>noAssert = true\<close> to the read and write methods. What that does to a
  value too large for its field depends on the version of Node.js the code runs on, so the
  runtime is a parameter of the model: before version 10 the flag is honoured and the value
  is stored without a check, truncated to the width of the field; from version 10 on the
  flag is ignored and the write throws \<open>ERR_OUT_OF_RANGE\<close>.
\<close>

datatype runtime = NoAssertHonoured | NoAssertIgnored

datatype error = Error string | ERR_OUT_OF_RANGE

type_synonym byte = "8 word"
type_synonym buffer = "byte list"

definition alloc :: "nat \<Rightarrow> buffer" where
  "alloc n = replicate n 0"

definition slice_from :: "buffer \<Rightarrow> nat \<Rightarrow> buffer" where
  \<comment> \<open>\<open>buffer.slice(start)\<close>\<close>
  "slice_from buf start = drop start buf"

definition slice :: "buffer \<Rightarrow> nat \<Rightarrow> nat \<Rightarrow> buffer" where
  \<comment> \<open>\<open>buffer.slice(start, end)\<close>; both indices are clamped to the length\<close>
  "slice buf start end = take (end - start) (drop start buf)"

definition readUInt8 :: "buffer \<Rightarrow> nat \<Rightarrow> byte" where
  "readUInt8 buf off = buf ! off"

definition readUInt16BE :: "buffer \<Rightarrow> nat \<Rightarrow> nat" where
  "readUInt16BE buf off = unat (buf ! off) * 256 + unat (buf ! (off + 1))"

definition writeUInt8 :: "buffer \<Rightarrow> byte \<Rightarrow> nat \<Rightarrow> buffer" where
  \<comment> \<open>the value is a byte, in range on either runtime\<close>
  "writeUInt8 buf v off = buf[off := v]"

definition writeUInt16BE :: "runtime \<Rightarrow> buffer \<Rightarrow> nat \<Rightarrow> nat \<Rightarrow> error + buffer" where
  \<comment> \<open>with the range check where the runtime makes it; otherwise
    \<open>this[offset] = value >>> 8; this[offset + 1] = value\<close>, each stored as a byte\<close>
  "writeUInt16BE rt buf v off =
     (if rt = NoAssertIgnored \<and> v > 0xffff then Inl ERR_OUT_OF_RANGE
      else Inr ((buf[off := of_nat ((v mod 2 ^ 32) div 256)])[off + 1 := of_nat v]))"

definition copy :: "buffer \<Rightarrow> buffer \<Rightarrow> nat \<Rightarrow> buffer" where
  \<comment> \<open>\<open>source.copy(target, targetStart)\<close>: as many bytes as fit in the target\<close>
  "copy source target targetStart =
     take targetStart target @ take (length target - targetStart) source
       @ drop (targetStart + length source) target"

section \<open>The client: OpcClientStream\<close>

datatype pixels = Buffer buffer | Uint32Array "32 word list"

definition SETPIXELCOLORS :: byte where
  "SETPIXELCOLORS = 0x00"

definition SYSEX :: byte where
  "SYSEX = 0xff"

definition createMessage :: "runtime \<Rightarrow> byte \<Rightarrow> byte \<Rightarrow> buffer \<Rightarrow> error + buffer" where
  "createMessage rt ch command data =
     (let msg = alloc (4 + length data);
          msg = writeUInt8 msg ch 0;
          msg = writeUInt8 msg command 1
      in case writeUInt16BE rt msg (length data) 2 of
           Inl e \<Rightarrow> Inl e
         | Inr msg \<Rightarrow> Inr (copy data msg 4))"

text \<open>
  The loop of \<open>setPixelColors\<close> that packs a \<open>Uint32Array\<close> into three bytes per pixel.
  \<open>rgb >> 16\<close> is JavaScript's signed shift on the 32-bit value.
\<close>

function pack_loop :: "32 word list \<Rightarrow> buffer \<Rightarrow> nat \<Rightarrow> buffer" where
  "pack_loop data tmp i =
     (if i < length data then
        (let rgb = data ! i;
             tmp = writeUInt8 tmp (ucast (signed_drop_bit 16 rgb AND 0xff)) (3 * i);
             tmp = writeUInt8 tmp (ucast (signed_drop_bit 8 rgb AND 0xff)) (3 * i + 1);
             tmp = writeUInt8 tmp (ucast (rgb AND 0xff)) (3 * i + 2)
         in pack_loop data tmp (i + 1))
      else tmp)"
  by pat_completeness auto
termination
  by (relation "measure (\<lambda>(data, tmp, i). length data - i)") auto

declare pack_loop.simps [simp del]

definition toBuffer :: "32 word list \<Rightarrow> buffer" where
  \<comment> \<open>the branch of \<open>setPixelColors\<close> for a \<open>Uint32Array\<close>: \<open>tmp = Buffer.alloc(3 * data.length)\<close>,
    then the loop\<close>
  "toBuffer data = pack_loop data (alloc (3 * length data)) 0"

definition client_setPixelColors :: "runtime \<Rightarrow> byte \<Rightarrow> pixels \<Rightarrow> error + buffer" where
  \<comment> \<open>the message pushed to the stream, or the exception thrown\<close>
  "client_setPixelColors rt ch data =
     (let data = (case data of
                    Uint32Array a \<Rightarrow> toBuffer a
                  | Buffer b \<Rightarrow> b)
      in createMessage rt ch SETPIXELCOLORS data)"

definition client_sysex :: "runtime \<Rightarrow> byte \<Rightarrow> nat \<Rightarrow> buffer \<Rightarrow> error + buffer" where
  "client_sysex rt ch sysId data =
     (case writeUInt16BE rt (alloc (2 + length data)) sysId 0 of
        Inl e \<Rightarrow> Inl e
      | Inr buf \<Rightarrow> createMessage rt ch SYSEX (copy data buf 2))"

section \<open>The parser: OpcParseStream\<close>

datatype DataFormat = BUFFER | UINT32_ARRAY

record OpcParseStream =
  pushback :: "buffer option"
  dataFormat :: DataFormat
  channel :: int
  systemId :: int

text \<open>
  The options of the constructor. A field is absent (\<open>None\<close>) or holds an integral
  number; \<open>~~x\<close> coerces it to a signed 32-bit integer, and an absent field to 0.
\<close>

record Options =
  opt_dataFormat :: "DataFormat option"
  opt_channel :: "int option"
  opt_systemId :: "int option"

definition toInt32 :: "int \<Rightarrow> int" where
  "toInt32 n = (n + 2 ^ 31) mod 2 ^ 32 - 2 ^ 31"

definition coerce :: "int option \<Rightarrow> int" where
  \<comment> \<open>\<open>~~value\<close>\<close>
  "coerce v = (case v of None \<Rightarrow> 0 | Some n \<Rightarrow> toInt32 n)"

definition constructor :: "Options option \<Rightarrow> OpcParseStream" where
  "constructor options =
     (let options = (case options of
                       None \<Rightarrow> \<lparr>opt_dataFormat = None, opt_channel = None, opt_systemId = None\<rparr>
                     | Some opts \<Rightarrow> opts)
      in \<lparr>pushback = None,
          dataFormat = (case opt_dataFormat options of None \<Rightarrow> BUFFER | Some f \<Rightarrow> f),
          channel = (if coerce (opt_channel options) \<noteq> 0 then coerce (opt_channel options) else 0),
          systemId = (if coerce (opt_systemId options) \<noteq> 0 then coerce (opt_systemId options)
                      else 0xffff)\<rparr>)"

text \<open>What the parser hands to the application: the calls of its two handler methods.\<close>

datatype event = SetPixelColors pixels | SysEx nat buffer

function unpack_loop :: "buffer \<Rightarrow> 32 word list \<Rightarrow> nat \<Rightarrow> 32 word list" where
  "unpack_loop data pixelData i =
     (if i < length pixelData then
        unpack_loop data
          (pixelData[i := push_bit 16 (ucast (readUInt8 data (3 * i)))
                          OR push_bit 8 (ucast (readUInt8 data (3 * i + 1)))
                          OR ucast (readUInt8 data (3 * i + 2))])
          (i + 1)
      else pixelData)"
  by pat_completeness auto
termination
  by (relation "measure (\<lambda>(data, pixelData, i). length pixelData - i)") auto

declare unpack_loop.simps [simp del]

definition toIntArray :: "buffer \<Rightarrow> 32 word list" where
  \<comment> \<open>the other branch of \<open>_handleSetPixelColorsMessage\<close>:
    \<open>pixelData = new Uint32Array(data.length / 3)\<close>, whose length is the integral part of the
    quotient, then the loop\<close>
  "toIntArray data = unpack_loop data (replicate (length data div 3) 0) 0"

definition handleSetPixelColorsMessage :: "OpcParseStream \<Rightarrow> buffer \<Rightarrow> event list" where
  "handleSetPixelColorsMessage this data =
     (if dataFormat this = BUFFER then [SetPixelColors (Buffer data)]
      else [SetPixelColors (Uint32Array (toIntArray data))])"

definition handleSysExMessage :: "OpcParseStream \<Rightarrow> buffer \<Rightarrow> event list" where
  "handleSysExMessage this data =
     (let sysId = readUInt16BE data 0;
          sysexCommandId = readUInt16BE data 2
      in if int sysId \<noteq> systemId this then []
         else [SysEx sysexCommandId (slice_from data 4)])"

definition handleOpcMessage :: "OpcParseStream \<Rightarrow> byte \<Rightarrow> byte \<Rightarrow> buffer \<Rightarrow> event list" where
  "handleOpcMessage this ch command data =
     (if ch > 0 \<and> uint ch \<noteq> channel this then []
      else
        (let evs = (if command = SETPIXELCOLORS then handleSetPixelColorsMessage this data
                    else [])
         in if command = SYSEX then
              (if length data < 4 then evs else evs @ handleSysExMessage this data)
            else evs))"

text \<open>
  The \<open>while\<close> loop of \<open>_write\<close>. It carries the field \<open>_pushback\<close> and the working
  buffer, and calls the handler \<open>h\<close> (the method \<open>_handleOpcMessage\<close>) once per complete
  frame; the outputs of the calls are collected in order.
\<close>

function write_loop ::
  "(byte \<Rightarrow> byte \<Rightarrow> buffer \<Rightarrow> 'e list) \<Rightarrow> buffer option \<Rightarrow> buffer \<Rightarrow> buffer option \<times> 'e list"
where
  "write_loop h pb buf =
     (if length buf > 0 then
        (if length buf < 4 then (Some buf, [])
         else
           (let ch = readUInt8 buf 0;
                command = readUInt8 buf 1;
                len = readUInt16BE buf 2
            in if length buf < 4 + len then (Some buf, [])
               else
                 (let pb = (if length buf > 4 + len then Some (slice_from buf (4 + len)) else pb);
                      data = slice buf 4 (4 + len);
                      out = h ch command data
                  in case write_loop h pb (slice_from buf (4 + len)) of
                       (pb', rest) \<Rightarrow> (pb', out @ rest))))
      else (pb, []))"
  by pat_completeness auto
termination
  by (relation "measure (\<lambda>(h, pb, buf). length buf)") (auto simp: slice_from_def)

declare write_loop.simps [simp del]

definition write_with ::
  "(byte \<Rightarrow> byte \<Rightarrow> buffer \<Rightarrow> 'e list) \<Rightarrow> OpcParseStream \<Rightarrow> buffer \<Rightarrow> string
     \<Rightarrow> error option \<times> OpcParseStream \<times> 'e list"
where
  "write_with h this buf encoding =
     (if encoding \<noteq> ''buffer'' then (Some (Error ''expected data as Buffer''), this, [])
      else
        (let buf = (case pushback this of Some p \<Rightarrow> p @ buf | None \<Rightarrow> buf)
         in case write_loop h None buf of
              (pb, out) \<Rightarrow> (None, this\<lparr>pushback := pb\<rparr>, out)))"

definition opc_write :: "OpcParseStream \<Rightarrow> buffer \<Rightarrow> string
     \<Rightarrow> error option \<times> OpcParseStream \<times> event list" where
  \<comment> \<open>\<open>_write\<close>: the argument of the callback, the object afterwards, the events emitted\<close>
  "opc_write this buf encoding = write_with (handleOpcMessage this) this buf encoding"

text \<open>Feeding a sequence of chunks, one \<open>_write\<close> each, collecting what the handler
  returned.\<close>

fun feed ::
  "(byte \<Rightarrow> byte \<Rightarrow> buffer \<Rightarrow> 'e list) \<Rightarrow> OpcParseStream \<Rightarrow> buffer list
     \<Rightarrow> OpcParseStream \<times> 'e list" where
  "feed h this [] = (this, [])"
| "feed h this (chunk # chunks) =
     (case write_with h this chunk ''buffer'' of
        (err, this', out) \<Rightarrow>
          (case feed h this' chunks of (this'', rest) \<Rightarrow> (this'', out @ rest)))"

definition frame :: "byte \<Rightarrow> byte \<Rightarrow> buffer \<Rightarrow> (byte \<times> byte \<times> buffer) list" where
  \<comment> \<open>the handler that records the arguments of each call\<close>
  "frame ch command data = [(ch, command, data)]"

section \<open>Auxiliary facts\<close>

subsection \<open>The frame the encoder builds\<close>

lemma be16_nat: "(n mod 2 ^ 32 div 256) mod 256 * 256 + n mod 256 = n mod 65536" for n :: nat
proof -
  have a: "take_bit 8 (drop_bit 8 (take_bit 32 n)) = drop_bit 8 (take_bit 16 n)"
    by (simp add: take_bit_drop_bit)
  have b: "push_bit 8 (drop_bit 8 (take_bit 16 n)) + take_bit 8 (take_bit 16 n) = take_bit 16 n"
    by (rule bits_ident)
  have c: "take_bit 8 (take_bit 16 n) = take_bit 8 n"
    by simp
  from a b c have "take_bit 8 (drop_bit 8 (take_bit 32 n)) * 2 ^ 8 + take_bit 8 n = take_bit 16 n"
    by (simp add: push_bit_eq_mult)
  then show ?thesis
    by (simp add: take_bit_eq_mod drop_bit_eq_div)
qed

lemma be16_bytes:
  "unat (of_nat (n mod 2 ^ 32 div 256) :: byte) * 256 + unat (of_nat n :: byte) = n mod 65536"
  using be16_nat [of n] by (simp add: unat_of_nat)

lemma alloc_4: "alloc (4 + n) = 0 # 0 # 0 # 0 # replicate n 0"
proof -
  have "replicate 4 (0::byte) = [0, 0, 0, 0]"
    by (simp add: numeral_eq_Suc)
  then show ?thesis
    by (simp add: alloc_def replicate_add)
qed

lemma createMessage_eq:
  assumes "rt = NoAssertHonoured \<or> length data \<le> 65535"
  shows "createMessage rt ch command data =
     Inr (ch # command # of_nat ((length data mod 2 ^ 32) div 256) # of_nat (length data) # data)"
proof -
  have u3: "xs[3 := v] = (case xs of a # b # c # d # r \<Rightarrow> a # b # c # v # r | _ \<Rightarrow> xs)" for xs :: buffer and v
    by (simp add: numeral_eq_Suc split: list.splits)
  have u2: "xs[2 := v] = (case xs of a # b # c # r \<Rightarrow> a # b # v # r | _ \<Rightarrow> xs)" for xs :: buffer and v
    by (simp add: numeral_eq_Suc split: list.splits)
  have t4: "take 4 (a # b # c # d # r) = [a, b, c, d]" for a b c d :: byte and r
    by (simp add: numeral_eq_Suc)
  have d4: "drop (4 + n) (a # b # c # d # r) = drop n r" for a b c d :: byte and r n
    by (simp add: numeral_eq_Suc)
  have three: "(2::nat) + 1 = 3" by simp
  have no_throw: "\<not> (rt = NoAssertIgnored \<and> length data > 0xffff)"
    using assms by auto
  show ?thesis
    unfolding createMessage_def Let_def alloc_4 writeUInt8_def writeUInt16BE_def copy_def three
    by (simp only: no_throw if_False sum.case u2 u3 t4 d4 list_update_code list.case) simp
qed

lemma createMessage_small:
  "length data \<le> 65535 \<Longrightarrow> createMessage rt ch command data =
     Inr (ch # command # of_nat ((length data mod 2 ^ 32) div 256) # of_nat (length data) # data)"
  by (rule createMessage_eq) simp

lemma createMessage_unchecked:
  "createMessage NoAssertHonoured ch command data =
     Inr (ch # command # of_nat ((length data mod 2 ^ 32) div 256) # of_nat (length data) # data)"
  by (rule createMessage_eq) simp

lemma createMessage_throws:
  assumes "length data > 65535"
  shows "createMessage NoAssertIgnored ch command data = Inl ERR_OUT_OF_RANGE"
  using assms by (simp add: createMessage_def writeUInt16BE_def)

lemma header_reads:
  "readUInt8 (a # b # c # d # r) 0 = a"
  "readUInt8 (a # b # c # d # r) 1 = b"
  "readUInt16BE (a # b # c # d # r) 2 = unat c * 256 + unat d"
  "slice (a # b # c # d # r) 4 (4 + n) = take n r"
  "slice_from (a # b # c # d # r) (4 + n) = drop n r"
  by (simp_all add: readUInt8_def readUInt16BE_def slice_def slice_from_def numeral_eq_Suc)

lemma slice_from_4: "slice_from (a # b # c # d # r) 4 = r"
  by (simp add: slice_from_def numeral_eq_Suc)

lemma nth_header:
  "(a # b # c # d # r) ! 0 = a" "(a # b # c # d # r) ! 1 = b"
  "(a # b # c # d # r) ! 2 = c" "(a # b # c # d # r) ! 3 = d"
  by (simp_all add: numeral_eq_Suc)

lemma write_loop_Nil: "write_loop h pb [] = (pb, [])"
  by (subst write_loop.simps) simp

lemma write_loop_frame:
  assumes "unat c * 256 + unat d \<le> length r"
  shows "write_loop h pb (a # b # c # d # r) =
     (case write_loop h (if unat c * 256 + unat d < length r
                         then Some (drop (unat c * 256 + unat d) r) else pb)
             (drop (unat c * 256 + unat d) r) of
        (pb', rest) \<Rightarrow> (pb', h a b (take (unat c * 256 + unat d) r) @ rest))"
proof -
  have "length (a # b # c # d # r) = 4 + length r"
    by simp
  then show ?thesis
    using assms
    by (subst write_loop.simps) (simp only: header_reads Let_def, simp)
qed

lemma write_loop_frame_bytes:
  assumes "length payload \<le> 65535"
  shows "write_loop h pb
           (ch # command # of_nat (length payload mod 2 ^ 32 div 256) # of_nat (length payload) # payload)
         = (pb, h ch command payload)"
proof -
  define c d :: byte
    where "c = of_nat (length payload mod 2 ^ 32 div 256)" and "d = of_nat (length payload)"
  have len: "unat c * 256 + unat d = length payload"
    unfolding c_def d_def using assms by (simp only: be16_bytes) simp
  have "write_loop h pb (ch # command # c # d # payload) = (pb, h ch command payload)"
    by (subst write_loop_frame) (simp_all add: len write_loop_Nil)
  then show ?thesis
    by (simp only: c_def d_def)
qed

lemma write_with_createMessage:
  assumes "length payload \<le> 65535" and "pushback this = None"
  shows "\<exists>msg. createMessage rt ch command payload = Inr msg
           \<and> write_with h this msg ''buffer'' = (None, this, h ch command payload)"
proof -
  define msg where
    "msg = ch # command # of_nat (length payload mod 2 ^ 32 div 256) # of_nat (length payload) # payload"
  have same: "this\<lparr>pushback := None\<rparr> = this"
    using assms(2) by (cases this) simp
  have built: "createMessage rt ch command payload = Inr msg"
    unfolding msg_def using assms(1) by (rule createMessage_small)
  have loop: "write_loop h None msg = (None, h ch command payload)"
    unfolding msg_def using assms(1) by (rule write_loop_frame_bytes)
  have "write_with h this msg ''buffer'' = (None, this, h ch command payload)"
    by (simp add: write_with_def assms(2) loop same)
  with built show ?thesis
    by blast
qed

section \<open>The encoder\<close>

text \<open>
  C7, as amended. For every channel, command and payload of at most 65535 bytes, on either
  runtime, \<open>createMessage\<close> returns a buffer of exactly \<open>4 + payload.length\<close> bytes, with the
  channel at offset 0, the command at offset 1, \<open>payload.length\<close> as a big-endian 16-bit
  integer at offsets 2 and 3, and the payload unchanged from offset 4 on.
\<close>

theorem createMessage_layout:
  assumes "length payload \<le> 65535"
  shows "\<exists>msg. createMessage rt ch command payload = Inr msg
     \<and> length msg = 4 + length payload
     \<and> msg ! 0 = ch
     \<and> msg ! 1 = command
     \<and> readUInt16BE msg 2 = length payload
     \<and> slice_from msg 4 = payload"
proof -
  define hi lo :: byte
    where "hi = of_nat (length payload mod 2 ^ 32 div 256)" and "lo = of_nat (length payload)"
  have field: "unat hi * 256 + unat lo = length payload"
    unfolding hi_def lo_def using assms by (simp only: be16_bytes) simp
  have "createMessage rt ch command payload = Inr (ch # command # hi # lo # payload)"
    unfolding hi_def lo_def using assms by (rule createMessage_small)
  moreover have "length (ch # command # hi # lo # payload) = 4 + length payload"
    by simp
  moreover have "(ch # command # hi # lo # payload) ! 0 = ch"
    and "(ch # command # hi # lo # payload) ! 1 = command"
    by (simp_all only: nth_header)
  moreover have "readUInt16BE (ch # command # hi # lo # payload) 2 = length payload"
    by (simp only: header_reads field)
  moreover have "slice_from (ch # command # hi # lo # payload) 4 = payload"
    by (rule slice_from_4)
  ultimately show ?thesis
    by blast
qed

theorem createMessage_layout_witness:
  "length [1, 2, 3 :: byte] \<le> 65535
   \<and> createMessage NoAssertIgnored 5 0 [1, 2, 3] = Inr [5, 0, 0, 3, 1, 2, 3]
   \<and> createMessage NoAssertHonoured 5 0 [1, 2, 3] = Inr [5, 0, 0, 3, 1, 2, 3]"
  using createMessage_layout [of "[1, 2, 3]" NoAssertIgnored 5 0]
    createMessage_layout [of "[1, 2, 3]" NoAssertHonoured 5 0]
  by (simp add: createMessage_small)

text \<open>
  C7 as stated fails for a payload of 65536 bytes. Where the runtime checks the range,
  \<open>createMessage\<close> throws and returns no buffer; where it does not, the 16-bit integer at
  offsets 2 and 3 of the buffer is 0, not the length of the payload.
\<close>

theorem createMessage_length_field_counterexample:
  "createMessage NoAssertIgnored 0 0 (replicate 65536 0) = Inl ERR_OUT_OF_RANGE
   \<and> createMessage NoAssertHonoured 0 0 (replicate 65536 0) = Inr (0 # 0 # 0 # 0 # replicate 65536 0)
   \<and> readUInt16BE (0 # 0 # 0 # 0 # replicate 65536 0) 2 \<noteq> length (replicate 65536 (0::byte))"
  by (simp add: createMessage_unchecked createMessage_throws header_reads)

text \<open>
  C9, as amended. For every payload longer than 65535 bytes: on a runtime that honours
  \<open>noAssert\<close>, \<open>createMessage\<close> does not fail and returns a frame of \<open>4 + payload.length\<close>
  bytes whose length field holds the truncated bytes of \<open>length >>> 8\<close> and \<open>length\<close>, so
  that it reads as \<open>payload.length mod 2^16\<close> and differs from the length of the payload;
  on a runtime that ignores \<open>noAssert\<close>, the write of the length field throws
  \<open>ERR_OUT_OF_RANGE\<close> and no frame is returned.
\<close>

theorem createMessage_truncates:
  assumes "length payload > 65535"
  shows "(\<exists>msg. createMessage NoAssertHonoured ch command payload = Inr msg
            \<and> length msg = 4 + length payload
            \<and> msg ! 2 = of_nat (length payload mod 2 ^ 32 div 256)
            \<and> msg ! 3 = of_nat (length payload)
            \<and> readUInt16BE msg 2 = length payload mod 2 ^ 16
            \<and> readUInt16BE msg 2 \<noteq> length payload
            \<and> slice_from msg 4 = payload)
       \<and> createMessage NoAssertIgnored ch command payload = Inl ERR_OUT_OF_RANGE"
proof -
  define hi lo :: byte
    where "hi = of_nat (length payload mod 2 ^ 32 div 256)" and "lo = of_nat (length payload)"
  have field: "unat hi * 256 + unat lo = length payload mod 2 ^ 16"
    unfolding hi_def lo_def by (simp only: be16_bytes) simp
  have "length payload mod 65536 < 65536"
    by simp
  then have "length payload mod 65536 \<noteq> length payload"
    using assms by linarith
  then have wrapped: "length payload mod 2 ^ 16 \<noteq> length payload"
    by simp
  have "createMessage NoAssertHonoured ch command payload = Inr (ch # command # hi # lo # payload)"
    unfolding hi_def lo_def by (rule createMessage_unchecked)
  moreover have "length (ch # command # hi # lo # payload) = 4 + length payload"
    by simp
  moreover have "(ch # command # hi # lo # payload) ! 2 = hi"
    and "(ch # command # hi # lo # payload) ! 3 = lo"
    by (simp_all only: nth_header)
  moreover have "readUInt16BE (ch # command # hi # lo # payload) 2 = length payload mod 2 ^ 16"
    by (simp only: header_reads field)
  moreover have "readUInt16BE (ch # command # hi # lo # payload) 2 \<noteq> length payload"
    using wrapped by (simp only: header_reads field) simp
  moreover have "slice_from (ch # command # hi # lo # payload) 4 = payload"
    by (rule slice_from_4)
  moreover have "createMessage NoAssertIgnored ch command payload = Inl ERR_OUT_OF_RANGE"
    using assms by (rule createMessage_throws)
  ultimately show ?thesis
    unfolding hi_def lo_def by blast
qed

theorem createMessage_truncates_witness:
  "length (replicate 65537 (7::byte)) > 65535
   \<and> createMessage NoAssertHonoured 1 0 (replicate 65537 7) = Inr (1 # 0 # 0 # 1 # replicate 65537 7)
   \<and> createMessage NoAssertIgnored 1 0 (replicate 65537 7) = Inl ERR_OUT_OF_RANGE"
  using createMessage_truncates [of "replicate 65537 7" 1 0]
  by (simp add: createMessage_unchecked)

text \<open>
  C9 as stated fails on a runtime that ignores \<open>noAssert\<close>: for a payload of 65537 bytes
  \<open>createMessage\<close> throws.
\<close>

theorem createMessage_truncates_counterexample:
  "createMessage NoAssertIgnored 1 0 (replicate 65537 7) = Inl ERR_OUT_OF_RANGE"
  by (simp add: createMessage_def writeUInt16BE_def)

section \<open>The decoder\<close>

text \<open>
  C3. For every channel, command and payload of at most 65535 bytes, on either runtime,
  \<open>createMessage channel command payload\<close> returns a buffer, and writing its bytes to a
  parser that holds no pushed-back bytes calls \<open>_handleOpcMessage\<close> exactly once, with that
  channel, command and payload, reports no error and leaves the parser as it was.
\<close>

theorem createMessage_roundtrip:
  assumes "length payload \<le> 65535" and "pushback this = None"
  shows "\<exists>msg. createMessage rt ch command payload = Inr msg
       \<and> write_with frame this msg ''buffer'' = (None, this, [(ch, command, payload)])
       \<and> opc_write this msg ''buffer'' = (None, this, handleOpcMessage this ch command payload)"
proof -
  obtain msg where msg: "createMessage rt ch command payload = Inr msg"
    and fr: "write_with frame this msg ''buffer'' = (None, this, frame ch command payload)"
    using write_with_createMessage [OF assms, of rt ch command frame] by blast
  obtain msg' where msg': "createMessage rt ch command payload = Inr msg'"
    and ev: "write_with (handleOpcMessage this) this msg' ''buffer''
               = (None, this, handleOpcMessage this ch command payload)"
    using write_with_createMessage [OF assms, of rt ch command "handleOpcMessage this"] by blast
  from msg msg' have "msg' = msg"
    by simp
  with msg fr ev show ?thesis
    by (simp add: opc_write_def frame_def)
qed

theorem createMessage_roundtrip_witness:
  "length [1, 2, 3 :: byte] \<le> 65535 \<and> pushback (constructor None) = None
   \<and> createMessage NoAssertIgnored 5 0 [1, 2, 3] = Inr [5, 0, 0, 3, 1, 2, 3]
   \<and> write_with frame (constructor None) [5, 0, 0, 3, 1, 2, 3] ''buffer''
        = (None, constructor None, [(5, 0, [1, 2, 3])])"
  using createMessage_roundtrip [of "[1, 2, 3]" "constructor None" NoAssertIgnored 5 0]
  by (simp add: constructor_def coerce_def createMessage_small)

text \<open>
  C8. For every parser and every call of \<open>_write\<close> whose encoding is not \<open>buffer\<close>, the
  callback receives the error, the parser (pushed-back bytes and configuration) is exactly
  as before the call, and nothing is dispatched.
\<close>

theorem write_rejects_encoding:
  "encoding \<noteq> ''buffer'' \<Longrightarrow>
   opc_write this buf encoding = (Some (Error ''expected data as Buffer''), this, [])"
  by (simp add: opc_write_def write_with_def)

theorem write_rejects_encoding_witness:
  "''utf8'' \<noteq> ''buffer''
   \<and> opc_write (constructor None\<lparr>pushback := Some [1, 0]\<rparr>) [0, 0, 0, 0] ''utf8''
       = (Some (Error ''expected data as Buffer''), constructor None\<lparr>pushback := Some [1, 0]\<rparr>, [])"
  using write_rejects_encoding [of "''utf8''" "constructor None\<lparr>pushback := Some [1, 0]\<rparr>"
      "[0, 0, 0, 0]"]
  by simp

section \<open>The pixel codec\<close>

subsection \<open>The two loops\<close>

text \<open>
  Each loop leaves the length of its array alone, does not touch the entries below its
  counter, and has written the entries from its counter on when it ends.
\<close>

lemma length_pack_loop: "length (pack_loop data tmp i) = length tmp"
proof (induction data tmp i rule: pack_loop.induct)
  case (1 data tmp i)
  show ?case
  proof (cases "i < length data")
    case True
    note IH = 1 [OF True refl refl refl refl]
    show ?thesis
      using IH by (subst pack_loop.simps) (simp add: True Let_def writeUInt8_def)
  next
    case False
    then show ?thesis
      by (subst pack_loop.simps) simp
  qed
qed

lemma pack_loop_below: "j < 3 * i \<Longrightarrow> pack_loop data tmp i ! j = tmp ! j"
proof (induction data tmp i rule: pack_loop.induct)
  case (1 data tmp i)
  show ?case
  proof (cases "i < length data")
    case True
    from "1.prems" have j: "j < 3 * (i + 1)" "j \<noteq> 3 * i" "j \<noteq> 3 * i + 1" "j \<noteq> 3 * i + 2"
      by simp_all
    note IH = "1.IH" [OF True refl refl refl refl j(1)]
    show ?thesis
      using j(2-4) IH by (subst pack_loop.simps) (simp add: True Let_def writeUInt8_def)
  next
    case False
    then show ?thesis
      by (subst pack_loop.simps) simp
  qed
qed

lemma pack_loop_at:
  "i \<le> k \<Longrightarrow> k < length data \<Longrightarrow> 3 * length data \<le> length tmp \<Longrightarrow>
   pack_loop data tmp i ! (3 * k) = ucast (signed_drop_bit 16 (data ! k) AND 0xff)
   \<and> pack_loop data tmp i ! (3 * k + 1) = ucast (signed_drop_bit 8 (data ! k) AND 0xff)
   \<and> pack_loop data tmp i ! (3 * k + 2) = ucast (data ! k AND 0xff)"
proof (induction data tmp i rule: pack_loop.induct)
  case (1 data tmp i)
  from "1.prems" have True: "i < length data"
    by simp
  let ?tmp = "tmp[3 * i := ucast (signed_drop_bit 16 (data ! i) AND 0xff),
                  3 * i + 1 := ucast (signed_drop_bit 8 (data ! i) AND 0xff),
                  3 * i + 2 := ucast (data ! i AND 0xff)]"
  have step: "pack_loop data tmp i = pack_loop data ?tmp (i + 1)"
    by (subst pack_loop.simps) (simp add: True Let_def writeUInt8_def)
  show ?case
  proof (cases "k = i")
    case True
    have "3 * i + 2 < length tmp"
      using "1.prems" by simp
    then show ?thesis
      unfolding step True
      by (simp add: pack_loop_below)
  next
    case False
    with "1.prems" have "i + 1 \<le> k"
      by simp
    moreover have "3 * length data \<le> length ?tmp"
      using "1.prems" by simp
    ultimately show ?thesis
      unfolding step
      using "1.IH" [OF \<open>i < length data\<close> refl refl refl refl _ "1.prems"(2)]
      by (simp add: writeUInt8_def)
  qed
qed

lemma length_unpack_loop: "length (unpack_loop data px i) = length px"
proof (induction data px i rule: unpack_loop.induct)
  case (1 data px i)
  show ?case
  proof (cases "i < length px")
    case True
    show ?thesis
      using 1 [OF True] by (subst unpack_loop.simps) (simp add: True)
  next
    case False
    then show ?thesis
      by (subst unpack_loop.simps) simp
  qed
qed

lemma unpack_loop_below: "j < i \<Longrightarrow> unpack_loop data px i ! j = px ! j"
proof (induction data px i rule: unpack_loop.induct)
  case (1 data px i)
  show ?case
  proof (cases "i < length px")
    case True
    from "1.prems" have "j < i + 1" "j \<noteq> i"
      by simp_all
    then show ?thesis
      using "1.IH" [OF True \<open>j < i + 1\<close>]
      by (subst unpack_loop.simps) (simp add: True)
  next
    case False
    then show ?thesis
      by (subst unpack_loop.simps) simp
  qed
qed

lemma unpack_loop_at:
  "i \<le> k \<Longrightarrow> k < length px \<Longrightarrow>
   unpack_loop data px i ! k =
     push_bit 16 (ucast (readUInt8 data (3 * k))) OR push_bit 8 (ucast (readUInt8 data (3 * k + 1)))
       OR ucast (readUInt8 data (3 * k + 2))"
proof (induction data px i rule: unpack_loop.induct)
  case (1 data px i)
  from "1.prems" have True: "i < length px"
    by simp
  show ?case
  proof (cases "k = i")
    case True
    with \<open>i < length px\<close> show ?thesis
      by (subst unpack_loop.simps) (simp add: unpack_loop_below)
  next
    case False
    with "1.prems" have "i + 1 \<le> k"
      by simp
    then show ?thesis
      using "1.IH" [OF True _ ] "1.prems"(2)
      by (subst unpack_loop.simps) (simp add: True)
  qed
qed

subsection \<open>Packing and unpacking one pixel\<close>

lemma mask_8: "(0xff :: 32 word) = mask 8"
  by (simp add: mask_eq_exp_minus_1)

lemma mask_24: "(0xffffff :: 32 word) = mask 24"
  by (simp add: mask_eq_exp_minus_1)

lemma pixel_bytes_combine:
  "push_bit 16 (ucast (ucast (signed_drop_bit 16 x AND 0xff) :: byte) :: 32 word)
     OR push_bit 8 (ucast (ucast (signed_drop_bit 8 x AND 0xff) :: byte))
     OR ucast (ucast (x AND 0xff) :: byte) = x AND 0xffffff" for x :: "32 word"
  unfolding mask_8 mask_24
proof (rule bit_word_eqI)
  fix n :: nat
  assume "n < LENGTH(32)"
  consider "n < 8" | "8 \<le> n" "n < 16" | "16 \<le> n" "n < 24" | "24 \<le> n"
    by linarith
  then show "bit (push_bit 16 (ucast (ucast (signed_drop_bit 16 x AND mask 8) :: byte) :: 32 word)
       OR push_bit 8 (ucast (ucast (signed_drop_bit 8 x AND mask 8) :: byte))
       OR ucast (ucast (x AND mask 8) :: byte)) n \<longleftrightarrow> bit (x AND mask 24) n"
  proof cases
    case 1
    then show ?thesis by (auto simp add: bit_simps)
  next
    case 2
    then have "8 + (n - 8) = n" by simp
    with 2 show ?thesis by (auto simp add: bit_simps)
  next
    case 3
    then have "16 + (n - 16) = n" by simp
    with 3 show ?thesis by (auto simp add: bit_simps)
  next
    case 4
    then show ?thesis by (auto simp add: bit_simps)
  qed
qed

lemma length_toBuffer: "length (toBuffer a) = 3 * length a"
  by (simp add: toBuffer_def length_pack_loop alloc_def)

lemma length_toIntArray: "length (toIntArray data) = length data div 3"
  by (simp add: toIntArray_def length_unpack_loop)

lemma toIntArray_toBuffer_nth:
  assumes "k < length a"
  shows "toIntArray (toBuffer a) ! k = a ! k AND 0xffffff"
proof -
  have "k < length (replicate (length (toBuffer a) div 3) (0 :: 32 word))"
    using assms by (simp add: length_toBuffer)
  then have "toIntArray (toBuffer a) ! k =
      push_bit 16 (ucast (toBuffer a ! (3 * k))) OR push_bit 8 (ucast (toBuffer a ! (3 * k + 1)))
        OR ucast (toBuffer a ! (3 * k + 2))"
    unfolding toIntArray_def by (subst unpack_loop_at) (simp_all add: readUInt8_def)
  also have "\<dots> = a ! k AND 0xffffff"
    using pack_loop_at [of 0 k a "alloc (3 * length a)"] assms
    by (simp only: toBuffer_def pixel_bytes_combine [symmetric]) (simp add: alloc_def)
  finally show ?thesis .
qed

lemma toIntArray_toBuffer: "toIntArray (toBuffer a) = map (\<lambda>rgb. rgb AND 0xffffff) a"
  by (rule nth_equalityI) (simp_all add: length_toIntArray length_toBuffer toIntArray_toBuffer_nth)

subsection \<open>Round trip\<close>

text \<open>
  C6, as amended. For every array \<open>a\<close> of 32-bit unsigned integers, packing \<open>a\<close> into three
  bytes per pixel and unpacking that buffer yields \<open>a\<close> with every element reduced to its
  low 24 bits; it is exactly \<open>a\<close> when every element is below \<open>2^24\<close>, the format
  \<open>0x00rrggbb\<close> of the parser's documentation.
\<close>

theorem pixel_codec_inverse:
  "toIntArray (toBuffer a) = map (\<lambda>rgb. rgb AND 0xffffff) a
   \<and> ((\<forall>rgb \<in> set a. rgb < 2 ^ 24) \<longrightarrow> toIntArray (toBuffer a) = a)"
proof -
  have "map (\<lambda>rgb. rgb AND 0xffffff) a = a" if "\<forall>rgb \<in> set a. rgb < 2 ^ 24"
    using that by (simp add: map_idI mask_24 less_mask_eq)
  then show ?thesis
    by (simp add: toIntArray_toBuffer)
qed

theorem pixel_codec_inverse_witness:
  "(0x0000ff :: 32 word) < 2 ^ 24 \<and> (0x00ff00 :: 32 word) < 2 ^ 24
   \<and> toIntArray (toBuffer [0x0000ff, 0x00ff00]) = [0x0000ff, 0x00ff00]"
  using pixel_codec_inverse [of "[0x0000ff, 0x00ff00]"]
  by simp

text \<open>
  C6 as stated fails for the one-element array \<open>[0x01000000]\<close>: the top byte is not
  transmitted, and the round trip returns \<open>[0]\<close>.
\<close>

theorem pixel_codec_inverse_counterexample:
  "toIntArray (toBuffer [0x01000000]) = [0] \<and> toIntArray (toBuffer [0x01000000]) \<noteq> [0x01000000]"
  by code_simp

section \<open>The dispatcher\<close>

text \<open>
  C5. A frame on channel 0 is accepted whatever channel the receiver is configured for:
  it is dispatched on its command alone (a SetPixelColors frame to the pixel handler, a
  SysEx frame of at least 4 bytes to the SysEx stage), exactly as the same frame on the
  receiver's own channel is, and independently of the configured channel. A frame whose
  channel is neither 0 nor the configured channel produces no handler call.
\<close>

theorem channel_filter:
  "handleOpcMessage this 0 command data =
      (if command = SETPIXELCOLORS then handleSetPixelColorsMessage this data
       else if command = SYSEX \<and> 4 \<le> length data then handleSysExMessage this data
       else [])
   \<and> (uint own = channel this \<longrightarrow>
        handleOpcMessage this 0 command data = handleOpcMessage this own command data)
   \<and> handleOpcMessage this 0 command data = handleOpcMessage (this\<lparr>channel := c\<rparr>) 0 command data
   \<and> (ch \<noteq> 0 \<and> uint ch \<noteq> channel this \<longrightarrow> handleOpcMessage this ch command data = [])"
  by (simp add: handleOpcMessage_def handleSetPixelColorsMessage_def handleSysExMessage_def
      SETPIXELCOLORS_def SYSEX_def word_gt_0 not_less)

theorem channel_filter_witness:
  "uint (7::byte) = channel \<lparr>pushback = None, dataFormat = BUFFER, channel = 7, systemId = 0xffff\<rparr>
   \<and> (5::byte) \<noteq> 0
   \<and> uint (5::byte) \<noteq> channel \<lparr>pushback = None, dataFormat = BUFFER, channel = 7, systemId = 0xffff\<rparr>
   \<and> handleOpcMessage \<lparr>pushback = None, dataFormat = BUFFER, channel = 7, systemId = 0xffff\<rparr>
         0 SYSEX [0xff, 0xff, 0, 1, 0xaa] = [SysEx 1 [0xaa]]
   \<and> handleOpcMessage \<lparr>pushback = None, dataFormat = BUFFER, channel = 7, systemId = 0xffff\<rparr>
         7 SYSEX [0xff, 0xff, 0, 1, 0xaa] = [SysEx 1 [0xaa]]
   \<and> handleOpcMessage \<lparr>pushback = None, dataFormat = BUFFER, channel = 7, systemId = 0xffff\<rparr>
         5 SYSEX [0xff, 0xff, 0, 1, 0xaa] = []"
  using channel_filter [of "\<lparr>pushback = None, dataFormat = BUFFER, channel = 7, systemId = 0xffff\<rparr>"
      SYSEX "[0xff, 0xff, 0, 1, 0xaa]" 7 7 5]
  by (simp add: handleOpcMessage_def SYSEX_def SETPIXELCOLORS_def handleSysExMessage_def
      readUInt16BE_def slice_from_def)

text \<open>
  C4, as amended. For every SysEx frame (command \<open>0xFF\<close>) that passes the channel filter,
  that is whose channel is 0 or the configured channel: if the payload is shorter than 4
  bytes, or its big-endian 16-bit system id at offset 0 differs from the configured one, no
  handler is called; otherwise the sysex handler is called exactly once, with the
  big-endian 16-bit command id at offset 2 and the payload from offset 4 on.
\<close>

theorem sysex_dispatch:
  assumes "ch = 0 \<or> uint ch = channel this"
  shows "handleOpcMessage this ch SYSEX data =
      (if length data < 4 \<or> int (readUInt16BE data 0) \<noteq> systemId this then []
       else [SysEx (readUInt16BE data 2) (slice_from data 4)])"
  using assms
  by (auto simp add: handleOpcMessage_def handleSysExMessage_def SETPIXELCOLORS_def SYSEX_def)

theorem sysex_dispatch_witness:
  "((7::byte) = 0 \<or> uint (7::byte) = channel \<lparr>pushback = None, dataFormat = BUFFER, channel = 7, systemId = 0xffff\<rparr>)
   \<and> handleOpcMessage \<lparr>pushback = None, dataFormat = BUFFER, channel = 7, systemId = 0xffff\<rparr> 7 SYSEX [0xff, 0xff, 0, 1, 0xaa]
       = [SysEx 1 [0xaa]]"
  using sysex_dispatch [of 7 "\<lparr>pushback = None, dataFormat = BUFFER, channel = 7, systemId = 0xffff\<rparr>" "[0xff, 0xff, 0, 1, 0xaa]"]
  by (simp add: readUInt16BE_def slice_from_def)

text \<open>
  C4 as stated fails for a SysEx frame on channel 5 sent to a receiver configured for
  channel 7: the payload has 5 bytes and carries the receiver's system id, and yet no
  handler is called.
\<close>

theorem sysex_dispatch_counterexample:
  "\<not> length [0xff, 0xff, 0, 1, 0xaa :: byte] < 4
   \<and> int (readUInt16BE [0xff, 0xff, 0, 1, 0xaa] 0) = systemId \<lparr>pushback = None, dataFormat = BUFFER, channel = 7, systemId = 0xffff\<rparr>
   \<and> handleOpcMessage \<lparr>pushback = None, dataFormat = BUFFER, channel = 7, systemId = 0xffff\<rparr> 5 SYSEX [0xff, 0xff, 0, 1, 0xaa] = []"
  by (simp add: handleOpcMessage_def readUInt16BE_def)

text \<open>
  C10. When the option \<open>systemId\<close> is absent, or is a number whose 32-bit coercion is 0, the
  constructed receiver has system id \<open>0xFFFF\<close>, and a SysEx frame whose payload carries
  system id 0 produces no handler call, on any channel.
\<close>

theorem systemId_zero_unreachable:
  assumes "options = None \<or> (\<exists>opts. options = Some opts \<and> coerce (opt_systemId opts) = 0)"
    and "readUInt16BE data 0 = 0"
  shows "systemId (constructor options) = 0xffff
       \<and> handleOpcMessage (constructor options) ch SYSEX data = []"
proof -
  have sid: "systemId (constructor options) = 0xffff"
    using assms(1) by (auto simp add: constructor_def coerce_def)
  then show ?thesis
    using assms(2)
    by (simp add: handleOpcMessage_def handleSysExMessage_def SETPIXELCOLORS_def SYSEX_def)
qed

theorem systemId_zero_unreachable_witness:
  "(Some \<lparr>opt_dataFormat = None, opt_channel = None, opt_systemId = Some 4294967296\<rparr> = None
      \<or> (\<exists>opts. Some \<lparr>opt_dataFormat = None, opt_channel = None, opt_systemId = Some 4294967296\<rparr> = Some opts
              \<and> coerce (opt_systemId opts) = 0))
   \<and> readUInt16BE [0, 0, 0, 1, 9] 0 = 0
   \<and> systemId (constructor (Some \<lparr>opt_dataFormat = None, opt_channel = None, opt_systemId = Some 4294967296\<rparr>)) = 0xffff
   \<and> handleOpcMessage (constructor (Some \<lparr>opt_dataFormat = None, opt_channel = None, opt_systemId = Some 4294967296\<rparr>)) 0 SYSEX [0, 0, 0, 1, 9] = []"
  using systemId_zero_unreachable [of "Some \<lparr>opt_dataFormat = None, opt_channel = None, opt_systemId = Some 4294967296\<rparr>" "[0, 0, 0, 1, 9]" 0]
  by (simp add: coerce_def toInt32_def readUInt16BE_def)

section \<open>Chunked input\<close>

text \<open>
  C1 does not hold of \<open>_write\<close>. Three frames with empty payloads on channels 1, 2 and 3,
  written as one chunk of 12 bytes, give three calls of \<open>_handleOpcMessage\<close>; the same 12
  bytes written as a chunk of 8 bytes and a chunk of 4 bytes give four calls, the second
  frame twice. After the first chunk the field \<open>_pushback\<close> still holds the second frame:
  it was set when the first frame was cut off and is not cleared when the loop ends with
  the working buffer empty.
\<close>

theorem write_split_duplicates_frame:
  "snd (feed frame (constructor None) [[1, 0, 0, 0, 2, 0, 0, 0, 3, 0, 0, 0]])
     = [(1, 0, []), (2, 0, []), (3, 0, [])]
   \<and> snd (feed frame (constructor None) [[1, 0, 0, 0, 2, 0, 0, 0], [3, 0, 0, 0]])
     = [(1, 0, []), (2, 0, []), (2, 0, []), (3, 0, [])]"
  by code_simp

text \<open>
  C2 does not hold of \<open>_write\<close>. A fresh parser is given one chunk that holds exactly two
  frames on channel 0, with payloads \<open>AA\<close> and \<open>BB\<close>. Both frames are delivered and the loop
  consumes the whole chunk, but the pushed-back bytes afterwards are the five bytes of the
  second frame.
\<close>

theorem write_keeps_delivered_frame:
  "opc_write (constructor None) [0, 0, 0, 1, 0xaa, 0, 0, 0, 1, 0xbb] ''buffer''
     = (None, (constructor None)\<lparr>pushback := Some [0, 0, 0, 1, 0xbb]\<rparr>,
        [SetPixelColors (Buffer [0xaa]), SetPixelColors (Buffer [0xbb])])"
  by code_simp

end
